theory Spec2Isabelle
  imports Main "HOL-Library.Sublist"
begin

text \<open>
  A model of the node-to-datastore topology resolver of the vSphere CSI driver
  (\<^verbatim>\<open>pkg/csi/service/cns/nodes.go\<close>): the membership callbacks \<open>nodeAdd\<close> and \<open>nodeDelete\<close>,
  the intersection of accessible datastores \<open>GetSharedDatastoresForVMs\<close>, and the topology
  resolver \<open>GetSharedDatastoresInTopology\<close> with its two closures.

  Go's \<open>(value, error)\<close> results are sums with the error on the left. A nil slice and an
  empty slice are both the empty list: the code only ever takes their length. Every function
  that calls the virtual-machine accessor returns, with its result, the list of accessor
  calls it has made, in order, so that "is not evaluated" and "before any work" are
  statements about that list.
\<close>

section \<open>Data model\<close>

text \<open>
  \<open>DatastoreInfo\<close> is declared in \<^verbatim>\<open>pkg/common/cns-lib/vsphere\<close>, outside the sources at hand:
  a datastore handle together with the provider's descriptive \<open>Info\<close>, of which the code
  reads the field \<open>Url\<close> only. The handle is kept so that two objects with one URL, fetched
  for different nodes, can be told apart.
\<close>

record vim_DatastoreInfo =
  Url :: string

record DatastoreInfo =
  Datastore :: string
  Info :: vim_DatastoreInfo

text \<open>
  The errors: one propagated from a collaborator (node manager or accessor), and the two
  that \<^verbatim>\<open>nodes.go\<close> creates itself with \<open>fmt.Errorf\<close>, "Empty List of Node VMs returned from
  nodeManager" and "No shared datastores found for nodeVm: ...", the latter carrying the
  node it names. The type of virtual machines is a parameter \<open>'vm\<close>.
\<close>

datatype 'vm error =
    External string
  | EmptyListOfNodeVMs
  | NoSharedDatastoresFound 'vm

text \<open>
  The calls to the virtual-machine accessor: the zone/region membership test (with the zone
  and region values asked for) and the query for the accessible datastores.
\<close>

datatype 'vm accessor_call =
    IsInZoneRegion_called 'vm string string
  | GetAllAccessibleDatastores_called 'vm

text \<open>
  The collaborators are parameters: the node manager's snapshot \<open>GetAllNodes\<close>, and the two
  accessor methods of a virtual machine. \<open>IsInZoneRegion\<close> takes the node, the zone and region
  category names and the zone and region values.
\<close>

record 'vm collaborators =
  GetAllNodes :: "'vm error + 'vm list"
  IsInZoneRegion :: "'vm \<Rightarrow> string \<Rightarrow> string \<Rightarrow> string \<Rightarrow> string \<Rightarrow> 'vm error + bool"
  GetAllAccessibleDatastores :: "'vm \<Rightarrow> 'vm error + DatastoreInfo list"

section \<open>GetSharedDatastoresForVMs\<close>

text \<open>
  The inner loop of lines 232-238: is there an accessible datastore with the URL of
  \<open>sharedDs\<close>? The loop breaks at the first match.
\<close>

fun foundIn :: "DatastoreInfo \<Rightarrow> DatastoreInfo list \<Rightarrow> bool" where
  "foundIn sharedDs [] = False"
| "foundIn sharedDs (accessibleDs # others) =
     (if Url (Info sharedDs) = Url (Info accessibleDs) then True else foundIn sharedDs others)"

text \<open>
  The loop of lines 230-239: the shared datastores found among the accessible ones, in the
  order of the shared ones. The elements kept are those of the running sequence.
\<close>

fun intersectByUrl :: "DatastoreInfo list \<Rightarrow> DatastoreInfo list \<Rightarrow> DatastoreInfo list" where
  "intersectByUrl [] accessibleDatastores = []"
| "intersectByUrl (sharedDs # others) accessibleDatastores =
     (if foundIn sharedDs accessibleDatastores
      then sharedDs # intersectByUrl others accessibleDatastores
      else intersectByUrl others accessibleDatastores)"

text \<open>The URLs of a datastore sequence (used in statements only).\<close>

definition urls :: "DatastoreInfo list \<Rightarrow> string list" where
  "urls datastores = map (\<lambda>d. Url (Info d)) datastores"

text \<open>
  The \<open>if\<close>/\<open>else\<close> of lines 226-241: an empty running sequence is replaced by the node's
  accessible datastores, a non-empty one is intersected with them.
\<close>

definition updateShared :: "DatastoreInfo list \<Rightarrow> DatastoreInfo list \<Rightarrow> DatastoreInfo list" where
  "updateShared sharedDatastores accessibleDatastores =
     (if length sharedDatastores = 0 then accessibleDatastores
      else intersectByUrl sharedDatastores accessibleDatastores)"

text \<open>
  The loop over \<open>nodeVMs\<close> of lines 220-245, from a running sequence: an accessor error is
  returned as it is, and an empty running sequence after a node is the error naming that
  node.
\<close>

fun sharedLoop ::
  "'vm collaborators \<Rightarrow> DatastoreInfo list \<Rightarrow> 'vm list
     \<Rightarrow> 'vm accessor_call list \<times> ('vm error + DatastoreInfo list)" where
  "sharedLoop env sharedDatastores [] = ([], Inr sharedDatastores)"
| "sharedLoop env sharedDatastores (nodeVM # rest) =
     (case GetAllAccessibleDatastores env nodeVM of
        Inl err \<Rightarrow> ([GetAllAccessibleDatastores_called nodeVM], Inl err)
      | Inr accessibleDatastores \<Rightarrow>
          (let sharedDatastores' = updateShared sharedDatastores accessibleDatastores in
           if length sharedDatastores' = 0
           then ([GetAllAccessibleDatastores_called nodeVM], Inl (NoSharedDatastoresFound nodeVM))
           else (case sharedLoop env sharedDatastores' rest of
                   (calls, res) \<Rightarrow> (GetAllAccessibleDatastores_called nodeVM # calls, res))))"

definition GetSharedDatastoresForVMs ::
  "'vm collaborators \<Rightarrow> 'vm list \<Rightarrow> 'vm accessor_call list \<times> ('vm error + DatastoreInfo list)" where
  "GetSharedDatastoresForVMs env nodeVMs = sharedLoop env [] nodeVMs"

section \<open>GetSharedDatastoresInTopology\<close>

text \<open>
  The two label keys are constants of \<^verbatim>\<open>pkg/csi/types\<close>, outside the sources at hand; their
  values are the keys shown in the doc comment of \<open>GetSharedDatastoresInTopology\<close>
  (lines 89-105). No statement below depends on the values.
\<close>

definition LabelZoneFailureDomain :: string where
  "LabelZoneFailureDomain = ''failure-domain.beta.kubernetes.io/zone''"

definition LabelRegionFailureDomain :: string where
  "LabelRegionFailureDomain = ''failure-domain.beta.kubernetes.io/region''"

text \<open>
  \<open>csi.Topology\<close> and \<open>csi.TopologyRequirement\<close> of the CSI specification. A list that is nil
  is \<open>None\<close>; the getters return nil on a nil requirement. Reading an absent key of a Go
  map gives the empty string.
\<close>

record Topology =
  Segments :: "string \<rightharpoonup> string"

record TopologyRequirement =
  Requisite :: "Topology list option"
  Preferred :: "Topology list option"

type_synonym datastoreTopologyMap = "string \<rightharpoonup> (string \<rightharpoonup> string) list"

definition segmentValue :: "(string \<rightharpoonup> string) \<Rightarrow> string \<Rightarrow> string" where
  "segmentValue segments key = (case segments key of None \<Rightarrow> [] | Some v \<Rightarrow> v)"

fun GetRequisite :: "TopologyRequirement option \<Rightarrow> Topology list option" where
  "GetRequisite None = None"
| "GetRequisite (Some m) = Requisite m"

fun GetPreferred :: "TopologyRequirement option \<Rightarrow> Topology list option" where
  "GetPreferred None = None"
| "GetPreferred (Some m) = Preferred m"

text \<open>
  The closure \<open>getNodesInZoneRegion\<close> (lines 120-134): the nodes of \<open>allNodes\<close> for which the
  membership test succeeds with true, in order; the first failing test is returned.
\<close>

fun zoneRegionLoop ::
  "'vm collaborators \<Rightarrow> string \<Rightarrow> string \<Rightarrow> string \<Rightarrow> string \<Rightarrow> 'vm list \<Rightarrow> 'vm list
     \<Rightarrow> 'vm accessor_call list \<times> ('vm error + 'vm list)" where
  "zoneRegionLoop env zoneCategoryName regionCategoryName zoneValue regionValue
       nodeVMsInZoneAndRegion [] = ([], Inr nodeVMsInZoneAndRegion)"
| "zoneRegionLoop env zoneCategoryName regionCategoryName zoneValue regionValue
       nodeVMsInZoneAndRegion (nodeVM # rest) =
     (case IsInZoneRegion env nodeVM zoneCategoryName regionCategoryName zoneValue regionValue of
        Inl err \<Rightarrow> ([IsInZoneRegion_called nodeVM zoneValue regionValue], Inl err)
      | Inr isNodeInZoneRegion \<Rightarrow>
          (case zoneRegionLoop env zoneCategoryName regionCategoryName zoneValue regionValue
                  (if isNodeInZoneRegion then nodeVMsInZoneAndRegion @ [nodeVM]
                   else nodeVMsInZoneAndRegion) rest of
             (calls, res) \<Rightarrow> (IsInZoneRegion_called nodeVM zoneValue regionValue # calls, res)))"

definition getNodesInZoneRegion ::
  "'vm collaborators \<Rightarrow> 'vm list \<Rightarrow> string \<Rightarrow> string \<Rightarrow> string \<Rightarrow> string
     \<Rightarrow> 'vm accessor_call list \<times> ('vm error + 'vm list)" where
  "getNodesInZoneRegion env allNodes zoneCategoryName regionCategoryName zoneValue regionValue =
     zoneRegionLoop env zoneCategoryName regionCategoryName zoneValue regionValue [] allNodes"

text \<open>
  Lines 160-166: the segment map recorded for a datastore holds the zone and the region
  key only when the value is not empty.
\<close>

definition accessibleTopology :: "string \<Rightarrow> string \<Rightarrow> (string \<rightharpoonup> string)" where
  "accessibleTopology zone region =
     (let m0 = Map.empty;
          m1 = (if zone \<noteq> [] then m0(LabelZoneFailureDomain \<mapsto> zone) else m0);
          m2 = (if region \<noteq> [] then m1(LabelRegionFailureDomain \<mapsto> region) else m1)
      in m2)"

text \<open>
  The loop of lines 159-168: each datastore found appends the segment map to the entry of
  its URL.
\<close>

fun recordTopology ::
  "string \<Rightarrow> string \<Rightarrow> DatastoreInfo list \<Rightarrow> datastoreTopologyMap \<Rightarrow> datastoreTopologyMap" where
  "recordTopology zone region [] datastoreTopologyMap = datastoreTopologyMap"
| "recordTopology zone region (datastore # others) datastoreTopologyMap =
     recordTopology zone region others
       (datastoreTopologyMap(Url (Info datastore) \<mapsto>
          (case datastoreTopologyMap (Url (Info datastore)) of None \<Rightarrow> [] | Some l \<Rightarrow> l)
            @ [accessibleTopology zone region]))"

text \<open>
  The closure \<open>getSharedDatastoresInTopology\<close> (lines 138-172): the loop over the
  segment-sets, from the accumulated sequence and map. The intersection is run on every
  partition, empty ones included.
\<close>

fun topologyLoop ::
  "'vm collaborators \<Rightarrow> 'vm list \<Rightarrow> string \<Rightarrow> string
     \<Rightarrow> DatastoreInfo list \<Rightarrow> datastoreTopologyMap \<Rightarrow> Topology list
     \<Rightarrow> 'vm accessor_call list \<times> ('vm error + DatastoreInfo list \<times> datastoreTopologyMap)" where
  "topologyLoop env allNodes zoneCategoryName regionCategoryName
       sharedDatastores datastoreTopologyMap [] = ([], Inr (sharedDatastores, datastoreTopologyMap))"
| "topologyLoop env allNodes zoneCategoryName regionCategoryName
       sharedDatastores datastoreTopologyMap (topology # rest) =
     (let segments = Segments topology;
          zone = segmentValue segments LabelZoneFailureDomain;
          region = segmentValue segments LabelRegionFailureDomain
      in case getNodesInZoneRegion env allNodes zoneCategoryName regionCategoryName zone region of
           (calls1, Inl err) \<Rightarrow> (calls1, Inl err)
         | (calls1, Inr nodeVMsInZoneRegion) \<Rightarrow>
             (case GetSharedDatastoresForVMs env nodeVMsInZoneRegion of
                (calls2, Inl err) \<Rightarrow> (calls1 @ calls2, Inl err)
              | (calls2, Inr sharedDatastoresInZoneRegion) \<Rightarrow>
                  (case topologyLoop env allNodes zoneCategoryName regionCategoryName
                          (sharedDatastores @ sharedDatastoresInZoneRegion)
                          (recordTopology zone region sharedDatastoresInZoneRegion
                             datastoreTopologyMap)
                          rest of
                     (calls3, res) \<Rightarrow> (calls1 @ calls2 @ calls3, res))))"

definition getSharedDatastoresInTopology ::
  "'vm collaborators \<Rightarrow> 'vm list \<Rightarrow> string \<Rightarrow> string \<Rightarrow> Topology list
     \<Rightarrow> 'vm accessor_call list \<times> ('vm error + DatastoreInfo list \<times> datastoreTopologyMap)" where
  "getSharedDatastoresInTopology env allNodes zoneCategoryName regionCategoryName topologyArr =
     topologyLoop env allNodes zoneCategoryName regionCategoryName [] Map.empty topologyArr"

text \<open>
  Lines 106-117 and 174-192: the snapshot is fetched and checked first; the preferred list
  is evaluated when the requirement and the list are not nil; the requisite list is
  evaluated when the sequence found so far is empty and the requirement and the list are
  not nil, and its outcome replaces sequence and map.
\<close>

definition GetSharedDatastoresInTopology ::
  "'vm collaborators \<Rightarrow> TopologyRequirement option \<Rightarrow> string \<Rightarrow> string
     \<Rightarrow> 'vm accessor_call list \<times> ('vm error + DatastoreInfo list \<times> datastoreTopologyMap)" where
  "GetSharedDatastoresInTopology env topologyRequirement zoneCategoryName regionCategoryName =
     (case GetAllNodes env of
        Inl err \<Rightarrow> ([], Inl err)
      | Inr allNodes \<Rightarrow>
          if length allNodes = 0 then ([], Inl EmptyListOfNodeVMs)
          else
            (case (if topologyRequirement \<noteq> None \<and> GetPreferred topologyRequirement \<noteq> None
                   then getSharedDatastoresInTopology env allNodes zoneCategoryName
                          regionCategoryName (the (GetPreferred topologyRequirement))
                   else ([], Inr ([], Map.empty))) of
               (calls1, Inl err) \<Rightarrow> (calls1, Inl err)
             | (calls1, Inr (sharedDatastores, datastoreTopologyMap)) \<Rightarrow>
                 if length sharedDatastores = 0 \<and> topologyRequirement \<noteq> None
                    \<and> GetRequisite topologyRequirement \<noteq> None
                 then (case getSharedDatastoresInTopology env allNodes zoneCategoryName
                              regionCategoryName (the (GetRequisite topologyRequirement)) of
                         (calls2, Inl err) \<Rightarrow> (calls1 @ calls2, Inl err)
                       | (calls2, Inr res) \<Rightarrow> (calls1 @ calls2, Inr res))
                 else (calls1, Inr (sharedDatastores, datastoreTopologyMap))))"

text \<open>Lines 197-215.\<close>

definition GetSharedDatastoresInK8SCluster ::
  "'vm collaborators \<Rightarrow> 'vm accessor_call list \<times> ('vm error + DatastoreInfo list)" where
  "GetSharedDatastoresInK8SCluster env =
     (case GetAllNodes env of
        Inl err \<Rightarrow> ([], Inl err)
      | Inr nodeVMs \<Rightarrow>
          if length nodeVMs = 0 then ([], Inl EmptyListOfNodeVMs)
          else (case GetSharedDatastoresForVMs env nodeVMs of
                  (calls, Inl err) \<Rightarrow> (calls, Inl err)
                | (calls, Inr sharedDatastores) \<Rightarrow> (calls, Inr sharedDatastores)))"

section \<open>Membership listener\<close>

text \<open>
  The event object is an \<open>interface{}\<close>: nil, a \<open>*v1.Node\<close> (itself possibly nil), or a
  value of another type. The callbacks return nothing; what they do is the warnings they
  log and the registry they leave. Dereferencing a nil node would panic, which the outcome
  type makes a value. \<open>RegisterNode\<close> and \<open>UnregisterNode\<close> of the node manager and
  \<open>GetUUIDFromProviderID\<close> of package \<open>common\<close> are parameters; the node manager's state is
  passed through them.
\<close>

record v1_NodeSpec =
  ProviderID :: string

record v1_Node =
  Name :: string
  Spec :: v1_NodeSpec

datatype obj =
    NilInterface
  | NodePtr "v1_Node option"
  | OtherObject string

datatype 'e warning =
    NodeAddUnrecognizedObject obj
  | FailedToRegisterNode string 'e
  | NodeDeleteUnrecognizedObject obj
  | FailedToUnregisterNode string 'e

datatype ('reg, 'e) outcome =
    Returned "'e warning list" 'reg
  | Panicked

record ('reg, 'e) listener_deps =
  RegisterNode :: "string \<Rightarrow> string \<Rightarrow> 'reg \<Rightarrow> 'e option \<times> 'reg"
  UnregisterNode :: "string \<Rightarrow> 'reg \<Rightarrow> 'e option \<times> 'reg"
  GetUUIDFromProviderID :: "string \<Rightarrow> string"

text \<open>The type assertion \<open>obj.(*v1.Node)\<close> in its two-result form.\<close>

fun assertNode :: "obj \<Rightarrow> v1_Node option \<times> bool" where
  "assertNode NilInterface = (None, False)"
| "assertNode (NodePtr p) = (p, True)"
| "assertNode (OtherObject v) = (None, False)"

definition nodeAdd :: "('reg, 'e) listener_deps \<Rightarrow> obj \<Rightarrow> 'reg \<Rightarrow> ('reg, 'e) outcome" where
  "nodeAdd deps obj reg =
     (case assertNode obj of
        (node, ok) \<Rightarrow>
          if node = None \<or> \<not> ok then Returned [NodeAddUnrecognizedObject obj] reg
          else (case node of
                  None \<Rightarrow> Panicked
                | Some n \<Rightarrow>
                    (case RegisterNode deps (GetUUIDFromProviderID deps (ProviderID (Spec n)))
                            (Name n) reg of
                       (Some err, reg') \<Rightarrow> Returned [FailedToRegisterNode (Name n) err] reg'
                     | (None, reg') \<Rightarrow> Returned [] reg')))"

definition nodeDelete :: "('reg, 'e) listener_deps \<Rightarrow> obj \<Rightarrow> 'reg \<Rightarrow> ('reg, 'e) outcome" where
  "nodeDelete deps obj reg =
     (case assertNode obj of
        (node, ok) \<Rightarrow>
          if node = None \<or> \<not> ok then Returned [NodeDeleteUnrecognizedObject obj] reg
          else (case node of
                  None \<Rightarrow> Panicked
                | Some n \<Rightarrow>
                    (case UnregisterNode deps (Name n) reg of
                       (Some err, reg') \<Rightarrow> Returned [FailedToUnregisterNode (Name n) err] reg'
                     | (None, reg') \<Rightarrow> Returned [] reg')))"

section \<open>A concrete cluster\<close>

text \<open>
  Three registered nodes, the first two in zone \<open>us-east\<close> and the third in \<open>us-west\<close>, all in
  region \<open>us\<close>; empty zone or region values match every node. A fourth virtual machine,
  not registered, reaches one datastore only.
\<close>

definition ds :: "string \<Rightarrow> string \<Rightarrow> DatastoreInfo" where
  "ds ref url = \<lparr>Datastore = ref, Info = \<lparr>Url = url\<rparr>\<rparr>"

definition dsX :: DatastoreInfo where "dsX = ds ''datastore-1'' ''ds:///vmfs/volumes/x/''"
definition dsY :: DatastoreInfo where "dsY = ds ''datastore-2'' ''ds:///vmfs/volumes/y/''"
definition dsZ :: DatastoreInfo where "dsZ = ds ''datastore-3'' ''ds:///vmfs/volumes/z/''"
definition dsW :: DatastoreInfo where "dsW = ds ''datastore-4'' ''ds:///vmfs/volumes/w/''"
definition dsY' :: DatastoreInfo where "dsY' = ds ''datastore-9'' ''ds:///vmfs/volumes/y/''"

definition zoneOf :: "string \<Rightarrow> string" where
  "zoneOf vm = (if vm = ''node3'' then ''us-west'' else ''us-east'')"

definition cluster :: "string collaborators" where
  "cluster =
     \<lparr>GetAllNodes = Inr [''node1'', ''node2'', ''node3''],
      IsInZoneRegion = (\<lambda>vm zoneCategoryName regionCategoryName zoneValue regionValue.
         Inr ((zoneValue = [] \<or> zoneValue = zoneOf vm) \<and> (regionValue = [] \<or> regionValue = ''us''))),
      GetAllAccessibleDatastores = (\<lambda>vm.
         if vm = ''node1'' then Inr [dsX, dsY, dsW]
         else if vm = ''node2'' then Inr [dsY', dsX]
         else if vm = ''node3'' then Inr [dsY', dsZ]
         else if vm = ''node4'' then Inr [dsZ]
         else Inl (External ''vm not found''))\<rparr>"

definition uniformCluster :: "string collaborators" where
  "uniformCluster = cluster\<lparr>GetAllAccessibleDatastores := (\<lambda>vm. Inr [dsX, dsY])\<rparr>"

definition emptyCluster :: "string collaborators" where
  "emptyCluster = cluster\<lparr>GetAllNodes := Inr []\<rparr>"

definition splitCluster :: "string collaborators" where
  "splitCluster = cluster\<lparr>GetAllAccessibleDatastores :=
     (\<lambda>vm. if vm = ''node2'' then Inr [dsZ] else GetAllAccessibleDatastores cluster vm)\<rparr>"

definition zoneTopology :: "string \<Rightarrow> Topology" where
  "zoneTopology zone = \<lparr>Segments = [LabelZoneFailureDomain \<mapsto> zone]\<rparr>"

definition registry :: "(string list, string) listener_deps" where
  "registry =
     \<lparr>RegisterNode = (\<lambda>uuid name reg.
         if uuid = [] then (Some ''ResolutionError'', reg) else (None, name # removeAll name reg)),
      UnregisterNode = (\<lambda>name reg.
         if name \<in> set reg then (None, removeAll name reg) else (Some ''NotFoundError'', reg)),
      GetUUIDFromProviderID = drop 10\<rparr>"

definition badNode :: v1_Node where
  "badNode = \<lparr>Name = ''node7'', Spec = \<lparr>ProviderID = ''vsphere://''\<rparr>\<rparr>"

section \<open>The intersection engine\<close>

lemma foundIn_iff: "foundIn s as \<longleftrightarrow> Url (Info s) \<in> set (urls as)"
  by (induction as) (auto simp: urls_def)

lemma intersectByUrl_filter: "intersectByUrl ss as = filter (\<lambda>s. foundIn s as) ss"
  by (induction ss) auto

lemma intersectByUrl_same_urls:
  assumes "urls as = urls ss"
  shows "intersectByUrl ss as = ss"
proof -
  have "\<forall>s\<in>set ss. foundIn s as"
    using assms by (auto simp: foundIn_iff urls_def)
  then show ?thesis
    by (simp add: intersectByUrl_filter)
qed

lemma sharedLoop_append:
  "sharedLoop env s (pre @ xs) =
     (case sharedLoop env s pre of
        (c, Inl e) \<Rightarrow> (c, Inl e)
      | (c, Inr s') \<Rightarrow> (case sharedLoop env s' xs of (c', r) \<Rightarrow> (c @ c', r)))"
  by (induction pre arbitrary: s) (auto simp: Let_def split: sum.splits prod.splits)

lemma sharedLoop_same_urls:
  assumes "s \<noteq> []"
      and "\<forall>vm\<in>set xs. \<exists>A. GetAllAccessibleDatastores env vm = Inr A \<and> urls A = urls s"
  shows "sharedLoop env s xs = (map GetAllAccessibleDatastores_called xs, Inr s)"
  using assms
proof (induction xs)
  case Nil
  then show ?case by simp
next
  case (Cons x xs)
  then obtain A where A: "GetAllAccessibleDatastores env x = Inr A" "urls A = urls s"
    by auto
  have "updateShared s A = s"
    using Cons.prems(1) A(2) by (simp add: updateShared_def intersectByUrl_same_urls)
  with Cons A show ?case by simp
qed

lemma sharedLoop_filter:
  assumes "s \<noteq> []" and "snd (sharedLoop env s xs) = Inr R"
  shows "R \<noteq> [] \<and>
         R = filter (\<lambda>d. \<forall>vm\<in>set xs. \<exists>A. GetAllAccessibleDatastores env vm = Inr A \<and> foundIn d A) s"
  using assms
proof (induction xs arbitrary: s)
  case Nil
  then show ?case by simp
next
  case (Cons x xs)
  from Cons.prems(2) obtain A where A: "GetAllAccessibleDatastores env x = Inr A"
    by (cases "GetAllAccessibleDatastores env x") auto
  let ?s' = "intersectByUrl s A"
  have upd: "updateShared s A = ?s'"
    using Cons.prems(1) by (simp add: updateShared_def)
  have ne: "?s' \<noteq> []"
    using Cons.prems(2) A upd by (auto split: if_splits)
  have "snd (sharedLoop env ?s' xs) = Inr R"
    using Cons.prems(2) A upd ne by (auto split: prod.splits)
  from Cons.IH [OF ne this] have R: "R \<noteq> []"
    "R = filter (\<lambda>d. \<forall>vm\<in>set xs. \<exists>A. GetAllAccessibleDatastores env vm = Inr A \<and> foundIn d A) ?s'"
    by blast+
  have "R = filter (\<lambda>d. \<forall>vm\<in>set (x # xs).
              \<exists>A. GetAllAccessibleDatastores env vm = Inr A \<and> foundIn d A) s"
    unfolding R(2) intersectByUrl_filter filter_filter using A
    by (intro filter_cong) auto
  with R(1) show ?case by blast
qed

text \<open>
  C1 (as stated, refuted). The claim says that \<open>GetSharedDatastoresForVMs\<close> fails for the
  empty node list. The loop body never runs for an empty list, so the function returns
  its initial, empty running set with no error.
\<close>

theorem empty_node_list_is_success:
  "GetSharedDatastoresForVMs cluster [] = ([], Inr [])"
  by (simp add: GetSharedDatastoresForVMs_def)

text \<open>
  C1 (amended). For the empty node list \<open>GetSharedDatastoresForVMs\<close> calls no accessor and
  returns the empty datastore sequence with no error. The empty-list error is raised by its
  caller \<open>GetSharedDatastoresInK8SCluster\<close>, which rejects an empty registry snapshot before
  the intersection is started.
\<close>

theorem empty_node_list_rejected_by_caller:
  "GetSharedDatastoresForVMs env [] = ([], Inr []) \<and>
   (GetAllNodes env = Inr [] \<longrightarrow>
      GetSharedDatastoresInK8SCluster env = ([], Inl EmptyListOfNodeVMs))"
  by (simp add: GetSharedDatastoresForVMs_def GetSharedDatastoresInK8SCluster_def)

theorem empty_node_list_rejected_by_caller_witness:
  "GetAllNodes emptyCluster = Inr [] \<and>
   GetSharedDatastoresForVMs emptyCluster [] = ([], Inr []) \<and>
   GetSharedDatastoresInK8SCluster emptyCluster = ([], Inl EmptyListOfNodeVMs)"
  using empty_node_list_rejected_by_caller [of emptyCluster]
  by (simp add: emptyCluster_def)

text \<open>
  C2. Let \<open>running\<close> be the running intersection after the nodes \<open>pre\<close> have been processed,
  and let the next node \<open>nodeVM\<close> make it empty. Then the call fails with the error naming
  \<open>nodeVM\<close>, whatever nodes follow, and the accessor calls made are those for \<open>pre\<close> and for
  \<open>nodeVM\<close> only: no node of \<open>rest\<close> is processed and no empty sequence is returned.
\<close>

theorem empty_intersection_short_circuits:
  assumes "GetSharedDatastoresForVMs env pre = (calls, Inr running)"
      and "GetAllAccessibleDatastores env nodeVM = Inr accessible"
      and "updateShared running accessible = []"
  shows "GetSharedDatastoresForVMs env (pre @ nodeVM # rest) =
           (calls @ [GetAllAccessibleDatastores_called nodeVM],
            Inl (NoSharedDatastoresFound nodeVM))"
  using assms
  by (simp add: GetSharedDatastoresForVMs_def sharedLoop_append)

theorem empty_intersection_short_circuits_witness:
  "GetSharedDatastoresForVMs cluster [''node1'', ''node2''] =
     ([GetAllAccessibleDatastores_called ''node1'', GetAllAccessibleDatastores_called ''node2''],
      Inr [dsX, dsY]) \<and>
   GetAllAccessibleDatastores cluster ''node4'' = Inr [dsZ] \<and>
   updateShared [dsX, dsY] [dsZ] = [] \<and>
   GetSharedDatastoresForVMs cluster ([''node1'', ''node2''] @ ''node4'' # [''node3'']) =
     ([GetAllAccessibleDatastores_called ''node1'', GetAllAccessibleDatastores_called ''node2'']
        @ [GetAllAccessibleDatastores_called ''node4''],
      Inl (NoSharedDatastoresFound ''node4''))"
proof -
  have h1: "GetSharedDatastoresForVMs cluster [''node1'', ''node2''] =
     ([GetAllAccessibleDatastores_called ''node1'', GetAllAccessibleDatastores_called ''node2''],
      Inr [dsX, dsY])"
    by (simp add: GetSharedDatastoresForVMs_def cluster_def updateShared_def
        dsX_def dsY_def dsY'_def dsW_def ds_def)
  have h2: "GetAllAccessibleDatastores cluster ''node4'' = Inr [dsZ]"
    by (simp add: cluster_def)
  have h3: "updateShared [dsX, dsY] [dsZ] = []"
    by (simp add: updateShared_def dsX_def dsY_def dsZ_def ds_def)
  from empty_intersection_short_circuits [OF h1 h2 h3, of "[''node3'']"] h1 h2 h3
  show ?thesis by blast
qed

text \<open>
  C3. If the node list is not empty and every node's accessor succeeds with a sequence that
  is, URL by URL, the non-empty sequence \<open>D\<close>, then every node is processed and the call
  succeeds with the sequence reported by the first node, which is \<open>D\<close> by URL (and is \<open>D\<close>
  itself when the first node reports \<open>D\<close>).
\<close>

theorem identical_accessible_sets_returned:
  assumes "nodeVMs \<noteq> []" and "D \<noteq> []"
      and "\<forall>vm\<in>set nodeVMs. \<exists>A. GetAllAccessibleDatastores env vm = Inr A \<and> urls A = urls D"
  shows "\<exists>R. GetSharedDatastoresForVMs env nodeVMs =
               (map GetAllAccessibleDatastores_called nodeVMs, Inr R) \<and>
             GetAllAccessibleDatastores env (hd nodeVMs) = Inr R \<and> urls R = urls D"
proof -
  from assms(1) obtain n ns where nodeVMs: "nodeVMs = n # ns"
    by (cases nodeVMs) auto
  from assms(3) nodeVMs obtain R where R: "GetAllAccessibleDatastores env n = Inr R" "urls R = urls D"
    by auto
  from assms(2) R(2) have ne: "R \<noteq> []"
    by (auto simp: urls_def)
  have "\<forall>vm\<in>set ns. \<exists>A. GetAllAccessibleDatastores env vm = Inr A \<and> urls A = urls R"
    using assms(3) nodeVMs R(2) by auto
  from sharedLoop_same_urls [OF ne this]
  have "GetSharedDatastoresForVMs env nodeVMs =
          (map GetAllAccessibleDatastores_called nodeVMs, Inr R)"
    using nodeVMs R(1) ne by (simp add: GetSharedDatastoresForVMs_def updateShared_def)
  with R nodeVMs show ?thesis by simp
qed

theorem identical_accessible_sets_returned_witness:
  "[''node1'', ''node2'', ''node3''] \<noteq> [] \<and> [dsX, dsY] \<noteq> [] \<and>
   GetAllAccessibleDatastores uniformCluster ''node1'' = Inr [dsX, dsY] \<and>
   GetAllAccessibleDatastores uniformCluster ''node2'' = Inr [dsX, dsY] \<and>
   GetAllAccessibleDatastores uniformCluster ''node3'' = Inr [dsX, dsY] \<and>
   GetSharedDatastoresForVMs uniformCluster [''node1'', ''node2'', ''node3''] =
     (map GetAllAccessibleDatastores_called [''node1'', ''node2'', ''node3''], Inr [dsX, dsY])"
proof -
  have acc: "GetAllAccessibleDatastores uniformCluster vm = Inr [dsX, dsY]" for vm
    by (simp add: uniformCluster_def)
  have "\<forall>vm\<in>set [''node1'', ''node2'', ''node3''].
          \<exists>A. GetAllAccessibleDatastores uniformCluster vm = Inr A \<and> urls A = urls [dsX, dsY]"
    by (simp add: acc)
  from identical_accessible_sets_returned [OF _ _ this]
  obtain R where R: "GetSharedDatastoresForVMs uniformCluster [''node1'', ''node2'', ''node3''] =
       (map GetAllAccessibleDatastores_called [''node1'', ''node2'', ''node3''], Inr R)"
     "GetAllAccessibleDatastores uniformCluster (hd [''node1'', ''node2'', ''node3'']) = Inr R"
    by blast
  from R(2) have "R = [dsX, dsY]"
    by (simp only: acc sum.inject)
  with R(1) show ?thesis
    by (simp only: acc) simp
qed

text \<open>
  C10. Whenever the call succeeds on a non-empty node list, the result is not empty and is
  a subsequence of the sequence fetched for the first node: exactly those of its elements
  whose URL is found in the accessible sequence of every later node, in the first node's
  order.
\<close>

theorem result_is_subsequence_of_first_node:
  assumes "nodeVMs \<noteq> []"
      and "snd (GetSharedDatastoresForVMs env nodeVMs) = Inr R"
  shows "R \<noteq> [] \<and>
         (\<exists>first. GetAllAccessibleDatastores env (hd nodeVMs) = Inr first \<and>
            subseq R first \<and>
            R = filter (\<lambda>d. \<forall>vm\<in>set (tl nodeVMs).
                   \<exists>A. GetAllAccessibleDatastores env vm = Inr A \<and> foundIn d A) first)"
proof -
  from assms(1) obtain n ns where nodeVMs: "nodeVMs = n # ns"
    by (cases nodeVMs) auto
  from assms(2) nodeVMs obtain first where first: "GetAllAccessibleDatastores env n = Inr first"
    by (cases "GetAllAccessibleDatastores env n") (auto simp: GetSharedDatastoresForVMs_def)
  have ne: "first \<noteq> []"
    using assms(2) nodeVMs first
    by (auto simp: GetSharedDatastoresForVMs_def updateShared_def split: if_splits)
  have "snd (sharedLoop env first ns) = Inr R"
    using assms(2) nodeVMs first ne
    by (auto simp: GetSharedDatastoresForVMs_def updateShared_def split: prod.splits)
  from sharedLoop_filter [OF ne this]
  have R: "R \<noteq> []"
    "R = filter (\<lambda>d. \<forall>vm\<in>set ns. \<exists>A. GetAllAccessibleDatastores env vm = Inr A \<and> foundIn d A) first"
    by blast+
  have "subseq R first"
    by (subst R(2)) simp
  with R first nodeVMs show ?thesis by auto
qed

theorem result_is_subsequence_of_first_node_witness:
  "[''node1'', ''node2'', ''node3''] \<noteq> [] \<and>
   snd (GetSharedDatastoresForVMs cluster [''node1'', ''node2'', ''node3'']) = Inr [dsY] \<and>
   GetAllAccessibleDatastores cluster (hd [''node1'', ''node2'', ''node3'']) = Inr [dsX, dsY, dsW] \<and>
   subseq [dsY] [dsX, dsY, dsW]"
proof -
  have h: "snd (GetSharedDatastoresForVMs cluster [''node1'', ''node2'', ''node3'']) = Inr [dsY]"
    by (simp add: GetSharedDatastoresForVMs_def cluster_def updateShared_def
        dsX_def dsY_def dsY'_def dsW_def dsZ_def ds_def)
  have first: "GetAllAccessibleDatastores cluster (hd [''node1'', ''node2'', ''node3'']) = Inr [dsX, dsY, dsW]"
    by (simp add: cluster_def)
  have "[''node1'', ''node2'', ''node3''] \<noteq> []"
    by simp
  from result_is_subsequence_of_first_node [OF this h]
  obtain first' where first': "GetAllAccessibleDatastores cluster (hd [''node1'', ''node2'', ''node3'']) = Inr first'"
      "subseq [dsY] first'"
    by blast
  from first'(1) first have "first' = [dsX, dsY, dsW]"
    by (simp only: sum.inject)
  with first'(2) have "subseq [dsY] [dsX, dsY, dsW]"
    by (simp only:)
  with h first show ?thesis
    by (simp only: simp_thms) simp
qed

section \<open>The topology resolver\<close>

lemma GetSharedDatastoresForVMs_Nil: "GetSharedDatastoresForVMs env [] = ([], Inr [])"
  by (simp add: GetSharedDatastoresForVMs_def)

lemma snd_topologyLoop_Cons:
  "snd (topologyLoop env allNodes zc rc s m (t # rest)) =
     (case snd (getNodesInZoneRegion env allNodes zc rc
                  (segmentValue (Segments t) LabelZoneFailureDomain)
                  (segmentValue (Segments t) LabelRegionFailureDomain)) of
        Inl e \<Rightarrow> Inl e
      | Inr nodeVMs \<Rightarrow>
          (case snd (GetSharedDatastoresForVMs env nodeVMs) of
             Inl e \<Rightarrow> Inl e
           | Inr found \<Rightarrow>
               snd (topologyLoop env allNodes zc rc (s @ found)
                      (recordTopology (segmentValue (Segments t) LabelZoneFailureDomain)
                         (segmentValue (Segments t) LabelRegionFailureDomain) found m)
                      rest)))"
  by (simp add: Let_def split: prod.splits sum.splits)

lemma snd_topologyLoop_append:
  "snd (topologyLoop env allNodes zc rc s m (pre @ post)) =
     (case snd (topologyLoop env allNodes zc rc s m pre) of
        Inl e \<Rightarrow> Inl e
      | Inr (s', m') \<Rightarrow> snd (topologyLoop env allNodes zc rc s' m' post))"
proof (induction pre arbitrary: s m)
  case Nil
  show ?case by simp
next
  case (Cons t pre)
  show ?case
    unfolding append_Cons snd_topologyLoop_Cons
    by (simp add: Cons.IH split: sum.splits)
qed

lemma snd_topologyLoop_empty_partition:
  assumes "snd (getNodesInZoneRegion env allNodes zc rc
                  (segmentValue (Segments t) LabelZoneFailureDomain)
                  (segmentValue (Segments t) LabelRegionFailureDomain)) = Inr []"
  shows "snd (topologyLoop env allNodes zc rc s m (t # post)) =
         snd (topologyLoop env allNodes zc rc s m post)"
  unfolding snd_topologyLoop_Cons assms
  by (simp add: GetSharedDatastoresForVMs_Nil)

lemma snd_closure_empty_partition:
  assumes "snd (getNodesInZoneRegion env allNodes zc rc
                  (segmentValue (Segments t) LabelZoneFailureDomain)
                  (segmentValue (Segments t) LabelRegionFailureDomain)) = Inr []"
  shows "snd (getSharedDatastoresInTopology env allNodes zc rc (pre @ t # post)) =
         snd (getSharedDatastoresInTopology env allNodes zc rc (pre @ post))"
  unfolding getSharedDatastoresInTopology_def snd_topologyLoop_append
    snd_topologyLoop_empty_partition [OF assms]
  by (rule refl)

lemma snd_GetSharedDatastoresInTopology:
  assumes "GetAllNodes env = Inr allNodes" and "allNodes \<noteq> []"
  shows "snd (GetSharedDatastoresInTopology env (Some req) zc rc) =
     (case (case Preferred req of
              None \<Rightarrow> Inr ([], Map.empty)
            | Some pref \<Rightarrow> snd (getSharedDatastoresInTopology env allNodes zc rc pref)) of
        Inl e \<Rightarrow> Inl e
      | Inr (s, m) \<Rightarrow>
          (case Requisite req of
             None \<Rightarrow> Inr (s, m)
           | Some rq \<Rightarrow>
               if s = [] then snd (getSharedDatastoresInTopology env allNodes zc rc rq)
               else Inr (s, m)))"
  using assms
  by (auto simp: GetSharedDatastoresInTopology_def split: sum.splits prod.splits option.splits)

subsection \<open>The topology map\<close>

lemma count_list_distinct:
  "distinct xs \<Longrightarrow> count_list xs x = (if x \<in> set xs then 1 else 0)"
  by (induction xs) auto

lemma accessibleTopology_segments:
  "accessibleTopology (segmentValue (Segments t) LabelZoneFailureDomain)
       (segmentValue (Segments t) LabelRegionFailureDomain) =
     (\<lambda>key. if (key = LabelZoneFailureDomain \<or> key = LabelRegionFailureDomain)
                  \<and> Segments t key \<noteq> Some []
               then Segments t key else None)"
  by (rule ext)
     (auto simp: accessibleTopology_def segmentValue_def Let_def LabelZoneFailureDomain_def
        LabelRegionFailureDomain_def split: option.splits)

lemma recordTopology_lookup:
  "recordTopology zone region found m u =
     (if u \<in> set (urls found)
      then Some ((case m u of None \<Rightarrow> [] | Some l \<Rightarrow> l)
                   @ replicate (count_list (urls found) u) (accessibleTopology zone region))
      else m u)"
proof (induction found arbitrary: m)
  case Nil
  show ?case by (simp add: urls_def)
next
  case (Cons d found)
  show ?case
    by (simp add: Cons.IH urls_def replicate_append_same)
qed

lemma two_passes_lookup:
  "recordTopology zB rB foundB (recordTopology zA rA foundA Map.empty) u =
     (if u \<in> set (urls foundA) \<union> set (urls foundB)
      then Some (replicate (count_list (urls foundA) u) (accessibleTopology zA rA)
                   @ replicate (count_list (urls foundB) u) (accessibleTopology zB rB))
      else None)"
  by (simp add: recordTopology_lookup count_list_0_iff)

lemma splitCluster_nodes: "GetAllNodes splitCluster = Inr [''node1'', ''node2'', ''node3'']"
  by (simp add: splitCluster_def cluster_def)

lemma splitCluster_pass_east:
  "getSharedDatastoresInTopology splitCluster [''node1'', ''node2'', ''node3''] zc rc
     [zoneTopology ''us-east''] =
     ([IsInZoneRegion_called ''node1'' ''us-east'' [],
       IsInZoneRegion_called ''node2'' ''us-east'' [],
       IsInZoneRegion_called ''node3'' ''us-east'' [],
       GetAllAccessibleDatastores_called ''node1'',
       GetAllAccessibleDatastores_called ''node2''],
      Inl (NoSharedDatastoresFound ''node2''))"
  by (simp add: getSharedDatastoresInTopology_def Let_def getNodesInZoneRegion_def
      GetSharedDatastoresForVMs_def updateShared_def splitCluster_def cluster_def zoneOf_def
      zoneTopology_def segmentValue_def LabelZoneFailureDomain_def LabelRegionFailureDomain_def
      dsX_def dsY_def dsW_def dsZ_def ds_def)

subsection \<open>The concrete cluster, evaluated\<close>

lemma cluster_nodes: "GetAllNodes cluster = Inr [''node1'', ''node2'', ''node3'']"
  by (simp add: cluster_def)

lemma zoneTopology_zone [simp]:
  "segmentValue (Segments (zoneTopology z)) LabelZoneFailureDomain = z"
  by (simp add: zoneTopology_def segmentValue_def)

lemma zoneTopology_region [simp]:
  "segmentValue (Segments (zoneTopology z)) LabelRegionFailureDomain = []"
  by (simp add: zoneTopology_def segmentValue_def LabelZoneFailureDomain_def
      LabelRegionFailureDomain_def)

lemma cluster_east:
  "getNodesInZoneRegion cluster [''node1'', ''node2'', ''node3''] zc rc ''us-east'' [] =
     ([IsInZoneRegion_called ''node1'' ''us-east'' [],
       IsInZoneRegion_called ''node2'' ''us-east'' [],
       IsInZoneRegion_called ''node3'' ''us-east'' []], Inr [''node1'', ''node2''])"
  by (simp add: getNodesInZoneRegion_def cluster_def zoneOf_def)

lemma cluster_west:
  "getNodesInZoneRegion cluster [''node1'', ''node2'', ''node3''] zc rc ''us-west'' [] =
     ([IsInZoneRegion_called ''node1'' ''us-west'' [],
       IsInZoneRegion_called ''node2'' ''us-west'' [],
       IsInZoneRegion_called ''node3'' ''us-west'' []], Inr [''node3''])"
  by (simp add: getNodesInZoneRegion_def cluster_def zoneOf_def)

lemma cluster_north:
  "getNodesInZoneRegion cluster [''node1'', ''node2'', ''node3''] zc rc ''eu-north'' [] =
     ([IsInZoneRegion_called ''node1'' ''eu-north'' [],
       IsInZoneRegion_called ''node2'' ''eu-north'' [],
       IsInZoneRegion_called ''node3'' ''eu-north'' []], Inr [])"
  by (simp add: getNodesInZoneRegion_def cluster_def zoneOf_def)

lemma shared_east:
  "GetSharedDatastoresForVMs cluster [''node1'', ''node2''] =
     ([GetAllAccessibleDatastores_called ''node1'', GetAllAccessibleDatastores_called ''node2''],
      Inr [dsX, dsY])"
  by (simp add: GetSharedDatastoresForVMs_def cluster_def updateShared_def
      dsX_def dsY_def dsY'_def dsW_def ds_def)

lemma shared_west:
  "GetSharedDatastoresForVMs cluster [''node3''] =
     ([GetAllAccessibleDatastores_called ''node3''], Inr [dsY', dsZ])"
  by (simp add: GetSharedDatastoresForVMs_def cluster_def updateShared_def)

lemma pass_west:
  "getSharedDatastoresInTopology cluster [''node1'', ''node2'', ''node3''] zc rc
     [zoneTopology ''us-west''] =
     ([IsInZoneRegion_called ''node1'' ''us-west'' [],
       IsInZoneRegion_called ''node2'' ''us-west'' [],
       IsInZoneRegion_called ''node3'' ''us-west'' [],
       GetAllAccessibleDatastores_called ''node3''],
      Inr ([dsY', dsZ], recordTopology ''us-west'' [] [dsY', dsZ] Map.empty))"
  by (simp add: getSharedDatastoresInTopology_def Let_def cluster_west shared_west
      dsY'_def dsZ_def ds_def)

lemma pass_north:
  "getSharedDatastoresInTopology cluster [''node1'', ''node2'', ''node3''] zc rc
     [zoneTopology ''eu-north''] =
     ([IsInZoneRegion_called ''node1'' ''eu-north'' [],
       IsInZoneRegion_called ''node2'' ''eu-north'' [],
       IsInZoneRegion_called ''node3'' ''eu-north'' []],
      Inr ([], Map.empty))"
  by (simp add: getSharedDatastoresInTopology_def Let_def cluster_north
      GetSharedDatastoresForVMs_Nil)

text \<open>
  C4. With a non-empty node snapshot, if the pass over the preferred list succeeds with at
  least one datastore, \<open>GetSharedDatastoresInTopology\<close> returns exactly the outcome of that
  pass, accessor calls included, whatever the requisite list is: the requisite list is not
  evaluated and nothing of it is merged in. The requisite list is evaluated only in two
  cases: when the preferred pass succeeds with zero datastores, and when no preferred list
  is supplied; the result is then the outcome of the requisite pass. When the preferred
  pass fails, its error is the result and the requisite list is not evaluated either.
\<close>

theorem preferred_takes_precedence:
  assumes "GetAllNodes env = Inr allNodes" and "allNodes \<noteq> []"
  shows "(Preferred req = Some pref \<and>
          getSharedDatastoresInTopology env allNodes zc rc pref = (calls, Inr (found, m)) \<and>
          found \<noteq> [] \<longrightarrow>
            GetSharedDatastoresInTopology env (Some req) zc rc = (calls, Inr (found, m))) \<and>
         (Preferred req = Some pref \<and>
          getSharedDatastoresInTopology env allNodes zc rc pref = (calls, Inr ([], m)) \<and>
          Requisite req = Some rq \<longrightarrow>
            GetSharedDatastoresInTopology env (Some req) zc rc =
              (calls @ fst (getSharedDatastoresInTopology env allNodes zc rc rq),
               snd (getSharedDatastoresInTopology env allNodes zc rc rq))) \<and>
         (Preferred req = None \<and> Requisite req = Some rq \<longrightarrow>
            GetSharedDatastoresInTopology env (Some req) zc rc =
              getSharedDatastoresInTopology env allNodes zc rc rq) \<and>
         (Preferred req = Some pref \<and>
          getSharedDatastoresInTopology env allNodes zc rc pref = (calls, Inl err) \<longrightarrow>
            GetSharedDatastoresInTopology env (Some req) zc rc = (calls, Inl err))"
proof (intro conjI impI)
  assume "Preferred req = Some pref \<and>
          getSharedDatastoresInTopology env allNodes zc rc pref = (calls, Inr (found, m)) \<and>
          found \<noteq> []"
  with assms show "GetSharedDatastoresInTopology env (Some req) zc rc = (calls, Inr (found, m))"
    by (simp add: GetSharedDatastoresInTopology_def)
next
  assume "Preferred req = Some pref \<and>
          getSharedDatastoresInTopology env allNodes zc rc pref = (calls, Inr ([], m)) \<and>
          Requisite req = Some rq"
  with assms show "GetSharedDatastoresInTopology env (Some req) zc rc =
              (calls @ fst (getSharedDatastoresInTopology env allNodes zc rc rq),
               snd (getSharedDatastoresInTopology env allNodes zc rc rq))"
    by (simp add: GetSharedDatastoresInTopology_def split: prod.splits sum.splits)
next
  assume "Preferred req = None \<and> Requisite req = Some rq"
  with assms show "GetSharedDatastoresInTopology env (Some req) zc rc =
              getSharedDatastoresInTopology env allNodes zc rc rq"
    by (simp add: GetSharedDatastoresInTopology_def split: prod.splits sum.splits)
next
  assume "Preferred req = Some pref \<and>
          getSharedDatastoresInTopology env allNodes zc rc pref = (calls, Inl err)"
  with assms show "GetSharedDatastoresInTopology env (Some req) zc rc = (calls, Inl err)"
    by (simp add: GetSharedDatastoresInTopology_def)
qed

theorem preferred_takes_precedence_witness:
  "GetAllNodes cluster = Inr [''node1'', ''node2'', ''node3''] \<and>
   GetSharedDatastoresInTopology cluster
       (Some \<lparr>Requisite = Some [zoneTopology ''us-east'', zoneTopology ''us-west''],
              Preferred = Some [zoneTopology ''us-west'']\<rparr>) ''k8s-zone'' ''k8s-region'' =
     ([IsInZoneRegion_called ''node1'' ''us-west'' [],
       IsInZoneRegion_called ''node2'' ''us-west'' [],
       IsInZoneRegion_called ''node3'' ''us-west'' [],
       GetAllAccessibleDatastores_called ''node3''],
      Inr ([dsY', dsZ], recordTopology ''us-west'' [] [dsY', dsZ] Map.empty)) \<and>
   GetSharedDatastoresInTopology cluster
       (Some \<lparr>Requisite = Some [zoneTopology ''us-west''],
              Preferred = Some [zoneTopology ''eu-north'']\<rparr>) ''k8s-zone'' ''k8s-region'' =
     ([IsInZoneRegion_called ''node1'' ''eu-north'' [],
       IsInZoneRegion_called ''node2'' ''eu-north'' [],
       IsInZoneRegion_called ''node3'' ''eu-north'' [],
       IsInZoneRegion_called ''node1'' ''us-west'' [],
       IsInZoneRegion_called ''node2'' ''us-west'' [],
       IsInZoneRegion_called ''node3'' ''us-west'' [],
       GetAllAccessibleDatastores_called ''node3''],
      Inr ([dsY', dsZ], recordTopology ''us-west'' [] [dsY', dsZ] Map.empty)) \<and>
   GetAllNodes splitCluster = Inr [''node1'', ''node2'', ''node3''] \<and>
   GetSharedDatastoresInTopology splitCluster
       (Some \<lparr>Requisite = Some [zoneTopology ''us-west''],
              Preferred = Some [zoneTopology ''us-east'']\<rparr>) ''k8s-zone'' ''k8s-region'' =
     ([IsInZoneRegion_called ''node1'' ''us-east'' [],
       IsInZoneRegion_called ''node2'' ''us-east'' [],
       IsInZoneRegion_called ''node3'' ''us-east'' [],
       GetAllAccessibleDatastores_called ''node1'',
       GetAllAccessibleDatastores_called ''node2''],
      Inl (NoSharedDatastoresFound ''node2''))"
proof -
  have ne: "[''node1'', ''node2'', ''node3''] \<noteq> []"
    by simp
  note thm1 = preferred_takes_precedence [OF cluster_nodes ne,
      where req = "\<lparr>Requisite = Some [zoneTopology ''us-east'', zoneTopology ''us-west''],
                     Preferred = Some [zoneTopology ''us-west'']\<rparr>"
        and pref = "[zoneTopology ''us-west'']" and zc = "''k8s-zone''" and rc = "''k8s-region''"
        and found = "[dsY', dsZ]", THEN conjunct1, rule_format]
  note thm2 = preferred_takes_precedence [OF cluster_nodes ne,
      where req = "\<lparr>Requisite = Some [zoneTopology ''us-west''],
                     Preferred = Some [zoneTopology ''eu-north'']\<rparr>"
        and pref = "[zoneTopology ''eu-north'']" and rq = "[zoneTopology ''us-west'']"
        and zc = "''k8s-zone''" and rc = "''k8s-region''",
      THEN conjunct2, THEN conjunct1, rule_format]
  note thm4 = preferred_takes_precedence [OF splitCluster_nodes ne,
      where req = "\<lparr>Requisite = Some [zoneTopology ''us-west''],
                     Preferred = Some [zoneTopology ''us-east'']\<rparr>"
        and pref = "[zoneTopology ''us-east'']"
        and zc = "''k8s-zone''" and rc = "''k8s-region''",
      THEN conjunct2, THEN conjunct2, THEN conjunct2, rule_format]
  have a: "GetSharedDatastoresInTopology cluster
       (Some \<lparr>Requisite = Some [zoneTopology ''us-east'', zoneTopology ''us-west''],
              Preferred = Some [zoneTopology ''us-west'']\<rparr>) ''k8s-zone'' ''k8s-region'' =
     ([IsInZoneRegion_called ''node1'' ''us-west'' [],
       IsInZoneRegion_called ''node2'' ''us-west'' [],
       IsInZoneRegion_called ''node3'' ''us-west'' [],
       GetAllAccessibleDatastores_called ''node3''],
      Inr ([dsY', dsZ], recordTopology ''us-west'' [] [dsY', dsZ] Map.empty))"
    by (rule thm1) (simp add: pass_west)
  have b: "GetSharedDatastoresInTopology cluster
       (Some \<lparr>Requisite = Some [zoneTopology ''us-west''],
              Preferred = Some [zoneTopology ''eu-north'']\<rparr>) ''k8s-zone'' ''k8s-region'' =
     ([IsInZoneRegion_called ''node1'' ''eu-north'' [],
       IsInZoneRegion_called ''node2'' ''eu-north'' [],
       IsInZoneRegion_called ''node3'' ''eu-north'' []]
        @ fst (getSharedDatastoresInTopology cluster [''node1'', ''node2'', ''node3'']
                 ''k8s-zone'' ''k8s-region'' [zoneTopology ''us-west'']),
      snd (getSharedDatastoresInTopology cluster [''node1'', ''node2'', ''node3'']
             ''k8s-zone'' ''k8s-region'' [zoneTopology ''us-west'']))"
    by (rule thm2) (simp add: pass_north)
  have c: "GetSharedDatastoresInTopology splitCluster
       (Some \<lparr>Requisite = Some [zoneTopology ''us-west''],
              Preferred = Some [zoneTopology ''us-east'']\<rparr>) ''k8s-zone'' ''k8s-region'' =
     ([IsInZoneRegion_called ''node1'' ''us-east'' [],
       IsInZoneRegion_called ''node2'' ''us-east'' [],
       IsInZoneRegion_called ''node3'' ''us-east'' [],
       GetAllAccessibleDatastores_called ''node1'',
       GetAllAccessibleDatastores_called ''node2''],
      Inl (NoSharedDatastoresFound ''node2''))"
    by (rule thm4) (simp add: splitCluster_pass_east)
  from a b c cluster_nodes splitCluster_nodes show ?thesis
    by (simp add: pass_west)
qed

text \<open>
  C6. When the node manager returns an empty snapshot, \<open>GetSharedDatastoresInTopology\<close>
  fails with the empty-node-list error for every topology requirement; no accessor has
  been called (no zone/region test, no datastore query), and neither a datastore sequence
  nor a topology map is returned.
\<close>

theorem empty_snapshot_rejected_first:
  assumes "GetAllNodes env = Inr []"
  shows "GetSharedDatastoresInTopology env topologyRequirement zc rc =
           ([], Inl EmptyListOfNodeVMs)"
  using assms by (simp add: GetSharedDatastoresInTopology_def)

theorem empty_snapshot_rejected_first_witness:
  "GetAllNodes emptyCluster = Inr [] \<and>
   GetSharedDatastoresInTopology emptyCluster
       (Some \<lparr>Requisite = Some [zoneTopology ''us-east'', zoneTopology ''us-west''],
              Preferred = Some [zoneTopology ''us-west'']\<rparr>) ''k8s-zone'' ''k8s-region'' =
     ([], Inl EmptyListOfNodeVMs)"
proof -
  have h: "GetAllNodes emptyCluster = Inr []"
    by (simp add: emptyCluster_def)
  from empty_snapshot_rejected_first [OF h] h show ?thesis
    by blast
qed

text \<open>
  C8. With a non-empty node snapshot and a topology requirement that supplies neither a
  preferred nor a requisite list (the requirement itself may be absent),
  \<open>GetSharedDatastoresInTopology\<close> succeeds with the empty datastore sequence and the empty
  topology map, and calls no accessor.
\<close>

theorem no_topology_lists_give_empty_result:
  assumes "GetAllNodes env = Inr allNodes" and "allNodes \<noteq> []"
      and "GetPreferred topologyRequirement = None"
      and "GetRequisite topologyRequirement = None"
  shows "GetSharedDatastoresInTopology env topologyRequirement zc rc =
           ([], Inr ([], Map.empty))"
  using assms by (simp add: GetSharedDatastoresInTopology_def)

theorem no_topology_lists_give_empty_result_witness:
  "GetAllNodes cluster = Inr [''node1'', ''node2'', ''node3''] \<and>
   GetPreferred (Some \<lparr>Requisite = None, Preferred = None\<rparr>) = None \<and>
   GetRequisite (Some \<lparr>Requisite = None, Preferred = None\<rparr>) = None \<and>
   GetSharedDatastoresInTopology cluster (Some \<lparr>Requisite = None, Preferred = None\<rparr>)
       ''k8s-zone'' ''k8s-region'' = ([], Inr ([], Map.empty)) \<and>
   GetSharedDatastoresInTopology cluster None ''k8s-zone'' ''k8s-region'' =
     ([], Inr ([], Map.empty))"
proof -
  have ne: "[''node1'', ''node2'', ''node3''] \<noteq> []"
    by simp
  have a: "GetSharedDatastoresInTopology cluster (Some \<lparr>Requisite = None, Preferred = None\<rparr>)
       ''k8s-zone'' ''k8s-region'' = ([], Inr ([], Map.empty))"
    by (rule no_topology_lists_give_empty_result [OF cluster_nodes ne]) simp_all
  have b: "GetSharedDatastoresInTopology cluster None ''k8s-zone'' ''k8s-region'' =
     ([], Inr ([], Map.empty))"
    by (rule no_topology_lists_give_empty_result [OF cluster_nodes ne]) simp_all
  from a b cluster_nodes show ?thesis
    by simp
qed

text \<open>
  C5. Take a requirement with only a requisite list of two segment-sets \<open>A\<close> and \<open>B\<close>, where
  the nodes in the zone and region of \<open>A\<close> share the datastores \<open>foundA\<close> and those of \<open>B\<close> share
  \<open>foundB\<close>. The result sequence is \<open>foundA\<close> followed by \<open>foundB\<close>, with no deduplication. The
  segment descriptor of a set is the map that holds, of the zone and the region key, those
  the set supplies with a non-empty value. The topology map sends a URL to the descriptor of
  \<open>A\<close>, once per occurrence in \<open>foundA\<close>, followed by the descriptor of \<open>B\<close>, once per occurrence
  in \<open>foundB\<close>, and has no other entry. So when \<open>A\<close> yields the datastores of the URLs
  \<open>{ux, uy}\<close> and \<open>B\<close> those of \<open>{uy, uz}\<close>, the result holds \<open>ux\<close> once, \<open>uy\<close> twice and \<open>uz\<close>
  once, and the map sends \<open>uy\<close> to the descriptor of \<open>A\<close> and then that of \<open>B\<close>, \<open>ux\<close> to that
  of \<open>A\<close> alone and \<open>uz\<close> to that of \<open>B\<close> alone.
\<close>

theorem requisite_segment_sets_accumulate:
  assumes "GetAllNodes env = Inr allNodes" and "allNodes \<noteq> []"
      and "snd (getNodesInZoneRegion env allNodes zc rc
                  (segmentValue (Segments A) LabelZoneFailureDomain)
                  (segmentValue (Segments A) LabelRegionFailureDomain)) = Inr nodesA"
      and "snd (GetSharedDatastoresForVMs env nodesA) = Inr foundA"
      and "snd (getNodesInZoneRegion env allNodes zc rc
                  (segmentValue (Segments B) LabelZoneFailureDomain)
                  (segmentValue (Segments B) LabelRegionFailureDomain)) = Inr nodesB"
      and "snd (GetSharedDatastoresForVMs env nodesB) = Inr foundB"
  shows "\<exists>m descA descB.
           snd (GetSharedDatastoresInTopology env
                  (Some \<lparr>Requisite = Some [A, B], Preferred = None\<rparr>) zc rc) =
             Inr (foundA @ foundB, m) \<and>
           descA = (\<lambda>key. if (key = LabelZoneFailureDomain \<or> key = LabelRegionFailureDomain)
                               \<and> Segments A key \<noteq> Some []
                            then Segments A key else None) \<and>
           descB = (\<lambda>key. if (key = LabelZoneFailureDomain \<or> key = LabelRegionFailureDomain)
                               \<and> Segments B key \<noteq> Some []
                            then Segments B key else None) \<and>
           (\<forall>u. m u =
              (if u \<in> set (urls foundA) \<union> set (urls foundB)
               then Some (replicate (count_list (urls foundA) u) descA
                            @ replicate (count_list (urls foundB) u) descB)
               else None)) \<and>
           (distinct (urls foundA) \<and> distinct (urls foundB) \<and>
            set (urls foundA) = {ux, uy} \<and> set (urls foundB) = {uy, uz} \<and>
            ux \<noteq> uy \<and> ux \<noteq> uz \<and> uy \<noteq> uz \<longrightarrow>
              count_list (urls (foundA @ foundB)) ux = 1 \<and>
              count_list (urls (foundA @ foundB)) uy = 2 \<and>
              count_list (urls (foundA @ foundB)) uz = 1 \<and>
              m ux = Some [descA] \<and> m uy = Some [descA, descB] \<and> m uz = Some [descB] \<and>
              dom m = {ux, uy, uz})"
proof -
  let ?zA = "segmentValue (Segments A) LabelZoneFailureDomain"
  let ?rA = "segmentValue (Segments A) LabelRegionFailureDomain"
  let ?zB = "segmentValue (Segments B) LabelZoneFailureDomain"
  let ?rB = "segmentValue (Segments B) LabelRegionFailureDomain"
  let ?m = "recordTopology ?zB ?rB foundB (recordTopology ?zA ?rA foundA Map.empty)"
  let ?dA = "accessibleTopology ?zA ?rA"
  let ?dB = "accessibleTopology ?zB ?rB"
  have "snd (GetSharedDatastoresInTopology env
               (Some \<lparr>Requisite = Some [A, B], Preferred = None\<rparr>) zc rc) =
        snd (getSharedDatastoresInTopology env allNodes zc rc [A, B])"
    by (simp add: snd_GetSharedDatastoresInTopology [OF assms(1,2)])
  also have "\<dots> = Inr (foundA @ foundB, ?m)"
    by (simp only: getSharedDatastoresInTopology_def snd_topologyLoop_Cons assms(3-6)
        sum.case topologyLoop.simps(1) snd_conv append_Nil)
  finally have res: "snd (GetSharedDatastoresInTopology env
               (Some \<lparr>Requisite = Some [A, B], Preferred = None\<rparr>) zc rc) =
        Inr (foundA @ foundB, ?m)" .
  have lookup: "\<forall>u. ?m u =
              (if u \<in> set (urls foundA) \<union> set (urls foundB)
               then Some (replicate (count_list (urls foundA) u) ?dA
                            @ replicate (count_list (urls foundB) u) ?dB)
               else None)"
    by (simp only: two_passes_lookup simp_thms)
  have special: "count_list (urls (foundA @ foundB)) ux = 1 \<and>
              count_list (urls (foundA @ foundB)) uy = 2 \<and>
              count_list (urls (foundA @ foundB)) uz = 1 \<and>
              ?m ux = Some [?dA] \<and> ?m uy = Some [?dA, ?dB] \<and> ?m uz = Some [?dB] \<and>
              dom ?m = {ux, uy, uz}"
    if h: "distinct (urls foundA) \<and> distinct (urls foundB) \<and>
            set (urls foundA) = {ux, uy} \<and> set (urls foundB) = {uy, uz} \<and>
            ux \<noteq> uy \<and> ux \<noteq> uz \<and> uy \<noteq> uz"
  proof -
    from h have dist: "distinct (urls foundA)" "distinct (urls foundB)"
      and sets: "set (urls foundA) = {ux, uy}" "set (urls foundB) = {uy, uz}"
      and neq: "ux \<noteq> uy" "ux \<noteq> uz" "uy \<noteq> uz" "uy \<noteq> ux" "uz \<noteq> ux" "uz \<noteq> uy"
      by blast+
    have cA: "count_list (urls foundA) ux = 1" "count_list (urls foundA) uy = 1"
        "count_list (urls foundA) uz = 0"
      by (simp_all add: count_list_distinct [OF dist(1)] sets neq)
    have cB: "count_list (urls foundB) ux = 0" "count_list (urls foundB) uy = 1"
        "count_list (urls foundB) uz = 1"
      by (simp_all add: count_list_distinct [OF dist(2)] sets neq)
    have app: "urls (foundA @ foundB) = urls foundA @ urls foundB"
      by (simp add: urls_def)
    have counts: "count_list (urls (foundA @ foundB)) ux = 1"
        "count_list (urls (foundA @ foundB)) uy = 2"
        "count_list (urls (foundA @ foundB)) uz = 1"
      by (simp_all add: app cA cB)
    have mem: "ux \<in> set (urls foundA) \<union> set (urls foundB)"
        "uy \<in> set (urls foundA) \<union> set (urls foundB)"
        "uz \<in> set (urls foundA) \<union> set (urls foundB)"
      by (simp_all add: sets)
    have mx: "?m ux = Some [?dA]"
      by (simp only: two_passes_lookup mem if_True cA cB) simp
    have my: "?m uy = Some [?dA, ?dB]"
      by (simp only: two_passes_lookup mem if_True cA cB) simp
    have mz: "?m uz = Some [?dB]"
      by (simp only: two_passes_lookup mem if_True cA cB) simp
    have "?m u \<noteq> None \<longleftrightarrow> u \<in> set (urls foundA) \<union> set (urls foundB)" for u
      by (simp only: two_passes_lookup) simp
    then have "dom ?m = set (urls foundA) \<union> set (urls foundB)"
      unfolding dom_def by blast
    then have dm: "dom ?m = {ux, uy, uz}"
      unfolding sets by blast
    from counts mx my mz dm show ?thesis
      by blast
  qed
  from res lookup special show ?thesis
    unfolding accessibleTopology_segments
    by blast
qed

theorem requisite_segment_sets_accumulate_witness:
  "GetAllNodes cluster = Inr [''node1'', ''node2'', ''node3''] \<and>
   snd (getNodesInZoneRegion cluster [''node1'', ''node2'', ''node3''] ''k8s-zone'' ''k8s-region''
          ''us-east'' []) = Inr [''node1'', ''node2''] \<and>
   snd (GetSharedDatastoresForVMs cluster [''node1'', ''node2'']) = Inr [dsX, dsY] \<and>
   snd (getNodesInZoneRegion cluster [''node1'', ''node2'', ''node3''] ''k8s-zone'' ''k8s-region''
          ''us-west'' []) = Inr [''node3''] \<and>
   snd (GetSharedDatastoresForVMs cluster [''node3'']) = Inr [dsY', dsZ] \<and>
   (\<exists>m. snd (GetSharedDatastoresInTopology cluster
               (Some \<lparr>Requisite = Some [zoneTopology ''us-east'', zoneTopology ''us-west''],
                      Preferred = None\<rparr>) ''k8s-zone'' ''k8s-region'') =
          Inr ([dsX, dsY, dsY', dsZ], m) \<and>
        m ''ds:///vmfs/volumes/x/'' =
          Some [[''failure-domain.beta.kubernetes.io/zone'' \<mapsto> ''us-east'']] \<and>
        m ''ds:///vmfs/volumes/y/'' =
          Some [[''failure-domain.beta.kubernetes.io/zone'' \<mapsto> ''us-east''],
                [''failure-domain.beta.kubernetes.io/zone'' \<mapsto> ''us-west'']] \<and>
        m ''ds:///vmfs/volumes/z/'' =
          Some [[''failure-domain.beta.kubernetes.io/zone'' \<mapsto> ''us-west'']] \<and>
        dom m = {''ds:///vmfs/volumes/x/'', ''ds:///vmfs/volumes/y/'', ''ds:///vmfs/volumes/z/''})"
proof -
  have ne: "[''node1'', ''node2'', ''node3''] \<noteq> []"
    by simp
  have h3: "snd (getNodesInZoneRegion cluster [''node1'', ''node2'', ''node3''] ''k8s-zone''
                   ''k8s-region''
                   (segmentValue (Segments (zoneTopology ''us-east'')) LabelZoneFailureDomain)
                   (segmentValue (Segments (zoneTopology ''us-east'')) LabelRegionFailureDomain)) =
            Inr [''node1'', ''node2'']"
    by (simp add: cluster_east)
  have h4: "snd (GetSharedDatastoresForVMs cluster [''node1'', ''node2'']) = Inr [dsX, dsY]"
    by (simp add: shared_east)
  have h5: "snd (getNodesInZoneRegion cluster [''node1'', ''node2'', ''node3''] ''k8s-zone''
                   ''k8s-region''
                   (segmentValue (Segments (zoneTopology ''us-west'')) LabelZoneFailureDomain)
                   (segmentValue (Segments (zoneTopology ''us-west'')) LabelRegionFailureDomain)) =
            Inr [''node3'']"
    by (simp add: cluster_west)
  have h6: "snd (GetSharedDatastoresForVMs cluster [''node3'']) = Inr [dsY', dsZ]"
    by (simp add: shared_west)
  have shape: "distinct (urls [dsX, dsY]) \<and> distinct (urls [dsY', dsZ]) \<and>
      set (urls [dsX, dsY]) = {''ds:///vmfs/volumes/x/'', ''ds:///vmfs/volumes/y/''} \<and>
      set (urls [dsY', dsZ]) = {''ds:///vmfs/volumes/y/'', ''ds:///vmfs/volumes/z/''} \<and>
      ''ds:///vmfs/volumes/x/'' \<noteq> ''ds:///vmfs/volumes/y/'' \<and>
      ''ds:///vmfs/volumes/x/'' \<noteq> ''ds:///vmfs/volumes/z/'' \<and>
      ''ds:///vmfs/volumes/y/'' \<noteq> ''ds:///vmfs/volumes/z/''"
    by (simp add: urls_def dsX_def dsY_def dsY'_def dsZ_def ds_def)
  note inst = requisite_segment_sets_accumulate [OF cluster_nodes ne h3 h4 h5 h6,
      where ux = "''ds:///vmfs/volumes/x/''" and uy = "''ds:///vmfs/volumes/y/''"
        and uz = "''ds:///vmfs/volumes/z/''"]
  have found: "\<exists>m. snd (GetSharedDatastoresInTopology cluster
               (Some \<lparr>Requisite = Some [zoneTopology ''us-east'', zoneTopology ''us-west''],
                      Preferred = None\<rparr>) ''k8s-zone'' ''k8s-region'') =
          Inr ([dsX, dsY, dsY', dsZ], m) \<and>
        m ''ds:///vmfs/volumes/x/'' =
          Some [[''failure-domain.beta.kubernetes.io/zone'' \<mapsto> ''us-east'']] \<and>
        m ''ds:///vmfs/volumes/y/'' =
          Some [[''failure-domain.beta.kubernetes.io/zone'' \<mapsto> ''us-east''],
                [''failure-domain.beta.kubernetes.io/zone'' \<mapsto> ''us-west'']] \<and>
        m ''ds:///vmfs/volumes/z/'' =
          Some [[''failure-domain.beta.kubernetes.io/zone'' \<mapsto> ''us-west'']] \<and>
        dom m = {''ds:///vmfs/volumes/x/'', ''ds:///vmfs/volumes/y/'', ''ds:///vmfs/volumes/z/''}"
    using inst
  proof (elim exE conjE, goal_cases)
    case (1 m descA descB)
    note sp = 1(5) [THEN mp, OF shape]
    have dA: "descA = [''failure-domain.beta.kubernetes.io/zone'' \<mapsto> ''us-east'']"
      unfolding 1(2)
      by (rule ext) (simp add: zoneTopology_def LabelZoneFailureDomain_def
          LabelRegionFailureDomain_def)
    have dB: "descB = [''failure-domain.beta.kubernetes.io/zone'' \<mapsto> ''us-west'']"
      unfolding 1(3)
      by (rule ext) (simp add: zoneTopology_def LabelZoneFailureDomain_def
          LabelRegionFailureDomain_def)
    have r: "snd (GetSharedDatastoresInTopology cluster
               (Some \<lparr>Requisite = Some [zoneTopology ''us-east'', zoneTopology ''us-west''],
                      Preferred = None\<rparr>) ''k8s-zone'' ''k8s-region'') =
          Inr ([dsX, dsY, dsY', dsZ], m)"
      using 1(1) by (simp only: append_Cons append_Nil)
    have mx: "m ''ds:///vmfs/volumes/x/'' =
          Some [[''failure-domain.beta.kubernetes.io/zone'' \<mapsto> ''us-east'']]"
      using sp [THEN conjunct2, THEN conjunct2, THEN conjunct2, THEN conjunct1]
      unfolding dA .
    have my: "m ''ds:///vmfs/volumes/y/'' =
          Some [[''failure-domain.beta.kubernetes.io/zone'' \<mapsto> ''us-east''],
                [''failure-domain.beta.kubernetes.io/zone'' \<mapsto> ''us-west'']]"
      using sp [THEN conjunct2, THEN conjunct2, THEN conjunct2, THEN conjunct2, THEN conjunct1]
      unfolding dA dB .
    have mz: "m ''ds:///vmfs/volumes/z/'' =
          Some [[''failure-domain.beta.kubernetes.io/zone'' \<mapsto> ''us-west'']]"
      using sp [THEN conjunct2, THEN conjunct2, THEN conjunct2, THEN conjunct2, THEN conjunct2,
          THEN conjunct1]
      unfolding dB .
    note dm = sp [THEN conjunct2, THEN conjunct2, THEN conjunct2, THEN conjunct2, THEN conjunct2,
          THEN conjunct2]
    show ?case
      by (rule exI [of _ m]) (intro conjI r mx my mz dm)
  qed
  have pA: "snd (getNodesInZoneRegion cluster [''node1'', ''node2'', ''node3''] ''k8s-zone''
       ''k8s-region'' ''us-east'' []) = Inr [''node1'', ''node2'']"
    by (simp add: cluster_east)
  have pB: "snd (getNodesInZoneRegion cluster [''node1'', ''node2'', ''node3''] ''k8s-zone''
       ''k8s-region'' ''us-west'' []) = Inr [''node3'']"
    by (simp add: cluster_west)
  show ?thesis
    by (intro conjI cluster_nodes pA h4 pB h6 found)
qed

text \<open>
  C7. Let \<open>t\<close> be a segment-set for which no node of the snapshot is in its zone and region.
  Processing \<open>t\<close> leaves the accumulated datastore sequence and topology map as they were
  and the loop goes on with the segment-sets after it; so the outcome of a pass over a
  list containing \<open>t\<close> is the outcome of the pass over the list without \<open>t\<close>, and the same
  holds for \<open>GetSharedDatastoresInTopology\<close> when \<open>t\<close> stands in its preferred or in its
  requisite list. In particular \<open>t\<close> adds no datastore and no map entry and causes no error.
\<close>

theorem empty_partition_is_skipped:
  assumes "snd (getNodesInZoneRegion env allNodes zc rc
                  (segmentValue (Segments t) LabelZoneFailureDomain)
                  (segmentValue (Segments t) LabelRegionFailureDomain)) = Inr []"
  shows "snd (topologyLoop env allNodes zc rc sharedDatastores datastoreTopologyMap (t # post)) =
           snd (topologyLoop env allNodes zc rc sharedDatastores datastoreTopologyMap post) \<and>
         snd (getSharedDatastoresInTopology env allNodes zc rc (pre @ t # post)) =
           snd (getSharedDatastoresInTopology env allNodes zc rc (pre @ post)) \<and>
         (GetAllNodes env = Inr allNodes \<longrightarrow>
            snd (GetSharedDatastoresInTopology env
                   (Some \<lparr>Requisite = rq, Preferred = Some (pre @ t # post)\<rparr>) zc rc) =
            snd (GetSharedDatastoresInTopology env
                   (Some \<lparr>Requisite = rq, Preferred = Some (pre @ post)\<rparr>) zc rc) \<and>
            snd (GetSharedDatastoresInTopology env
                   (Some \<lparr>Requisite = Some (pre @ t # post), Preferred = pf\<rparr>) zc rc) =
            snd (GetSharedDatastoresInTopology env
                   (Some \<lparr>Requisite = Some (pre @ post), Preferred = pf\<rparr>) zc rc))"
proof (intro conjI impI)
  show "snd (topologyLoop env allNodes zc rc sharedDatastores datastoreTopologyMap (t # post)) =
        snd (topologyLoop env allNodes zc rc sharedDatastores datastoreTopologyMap post)"
    by (rule snd_topologyLoop_empty_partition [OF assms])
next
  show "snd (getSharedDatastoresInTopology env allNodes zc rc (pre @ t # post)) =
        snd (getSharedDatastoresInTopology env allNodes zc rc (pre @ post))"
    by (rule snd_closure_empty_partition [OF assms])
next
  assume all: "GetAllNodes env = Inr allNodes"
  show "snd (GetSharedDatastoresInTopology env
               (Some \<lparr>Requisite = rq, Preferred = Some (pre @ t # post)\<rparr>) zc rc) =
        snd (GetSharedDatastoresInTopology env
               (Some \<lparr>Requisite = rq, Preferred = Some (pre @ post)\<rparr>) zc rc)"
  proof (cases "allNodes = []")
    case True
    with all show ?thesis
      by (simp add: GetSharedDatastoresInTopology_def)
  next
    case False
    show ?thesis
      by (simp add: snd_GetSharedDatastoresInTopology [OF all False]
          snd_closure_empty_partition [OF assms]
          cong: sum.case_cong prod.case_cong if_cong)
  qed
next
  assume all: "GetAllNodes env = Inr allNodes"
  show "snd (GetSharedDatastoresInTopology env
               (Some \<lparr>Requisite = Some (pre @ t # post), Preferred = pf\<rparr>) zc rc) =
        snd (GetSharedDatastoresInTopology env
               (Some \<lparr>Requisite = Some (pre @ post), Preferred = pf\<rparr>) zc rc)"
  proof (cases "allNodes = []")
    case True
    with all show ?thesis
      by (simp add: GetSharedDatastoresInTopology_def)
  next
    case False
    show ?thesis
      by (simp add: snd_GetSharedDatastoresInTopology [OF all False]
          snd_closure_empty_partition [OF assms]
          cong: sum.case_cong prod.case_cong if_cong)
  qed
qed

theorem empty_partition_is_skipped_witness:
  "snd (getNodesInZoneRegion cluster [''node1'', ''node2'', ''node3''] ''k8s-zone'' ''k8s-region''
          ''eu-north'' []) = Inr [] \<and>
   GetAllNodes cluster = Inr [''node1'', ''node2'', ''node3''] \<and>
   snd (GetSharedDatastoresInTopology cluster
          (Some \<lparr>Requisite = Some ([zoneTopology ''eu-north''] @ zoneTopology ''eu-north'' #
                                   [zoneTopology ''us-west'']),
                 Preferred = None\<rparr>) ''k8s-zone'' ''k8s-region'') =
   snd (GetSharedDatastoresInTopology cluster
          (Some \<lparr>Requisite = Some ([zoneTopology ''eu-north''] @ [zoneTopology ''us-west'']),
                 Preferred = None\<rparr>) ''k8s-zone'' ''k8s-region'') \<and>
   snd (getSharedDatastoresInTopology cluster [''node1'', ''node2'', ''node3''] ''k8s-zone''
          ''k8s-region'' ([] @ zoneTopology ''eu-north'' # [zoneTopology ''us-west''])) =
     Inr ([dsY', dsZ], recordTopology ''us-west'' [] [dsY', dsZ] Map.empty)"
proof -
  have h: "snd (getNodesInZoneRegion cluster [''node1'', ''node2'', ''node3''] ''k8s-zone''
                  ''k8s-region''
                  (segmentValue (Segments (zoneTopology ''eu-north'')) LabelZoneFailureDomain)
                  (segmentValue (Segments (zoneTopology ''eu-north'')) LabelRegionFailureDomain)) =
           Inr []"
    by (simp add: cluster_north)
  note inst = empty_partition_is_skipped [OF h]
  have a: "snd (GetSharedDatastoresInTopology cluster
          (Some \<lparr>Requisite = Some ([zoneTopology ''eu-north''] @ zoneTopology ''eu-north'' #
                                   [zoneTopology ''us-west'']),
                 Preferred = None\<rparr>) ''k8s-zone'' ''k8s-region'') =
      snd (GetSharedDatastoresInTopology cluster
          (Some \<lparr>Requisite = Some ([zoneTopology ''eu-north''] @ [zoneTopology ''us-west'']),
                 Preferred = None\<rparr>) ''k8s-zone'' ''k8s-region'')"
    using inst [THEN conjunct2, THEN conjunct2, rule_format, OF cluster_nodes, THEN conjunct2]
    by blast
  have "snd (getSharedDatastoresInTopology cluster [''node1'', ''node2'', ''node3''] ''k8s-zone''
          ''k8s-region'' ([] @ zoneTopology ''eu-north'' # [zoneTopology ''us-west''])) =
        snd (getSharedDatastoresInTopology cluster [''node1'', ''node2'', ''node3''] ''k8s-zone''
          ''k8s-region'' ([] @ [zoneTopology ''us-west'']))"
    using inst [THEN conjunct2, THEN conjunct1]
    by blast
  then have b: "snd (getSharedDatastoresInTopology cluster [''node1'', ''node2'', ''node3'']
          ''k8s-zone'' ''k8s-region'' ([] @ zoneTopology ''eu-north'' # [zoneTopology ''us-west''])) =
     Inr ([dsY', dsZ], recordTopology ''us-west'' [] [dsY', dsZ] Map.empty)"
    by (simp only: append_Nil pass_west snd_conv)
  have c: "snd (getNodesInZoneRegion cluster [''node1'', ''node2'', ''node3''] ''k8s-zone''
          ''k8s-region'' ''eu-north'' []) = Inr []"
    by (simp add: cluster_north)
  from a b c cluster_nodes show ?thesis
    by blast
qed

section \<open>The membership listener\<close>

text \<open>
  C9. For every event object and every registry state, \<open>nodeAdd\<close> and \<open>nodeDelete\<close> return
  (they do not dereference a nil node). An object that is not a non-nil node is logged as
  unrecognized and dropped: the node manager is not called and the registry is as before.
  When \<open>RegisterNode\<close> or \<open>UnregisterNode\<close> fails, the callback logs one warning and returns
  with the registry as the node manager left it; the callbacks have no error result.
\<close>

theorem listener_callbacks_return:
  "(\<exists>ws reg'. nodeAdd deps obj reg = Returned ws reg') \<and>
   (\<exists>ws reg'. nodeDelete deps obj reg = Returned ws reg') \<and>
   ((\<forall>n. obj \<noteq> NodePtr (Some n)) \<longrightarrow>
      nodeAdd deps obj reg = Returned [NodeAddUnrecognizedObject obj] reg \<and>
      nodeDelete deps obj reg = Returned [NodeDeleteUnrecognizedObject obj] reg) \<and>
   (\<forall>n err reg'.
      obj = NodePtr (Some n) \<and>
      RegisterNode deps (GetUUIDFromProviderID deps (ProviderID (Spec n))) (Name n) reg =
        (Some err, reg') \<longrightarrow>
      nodeAdd deps obj reg = Returned [FailedToRegisterNode (Name n) err] reg') \<and>
   (\<forall>n err reg'.
      obj = NodePtr (Some n) \<and> UnregisterNode deps (Name n) reg = (Some err, reg') \<longrightarrow>
      nodeDelete deps obj reg = Returned [FailedToUnregisterNode (Name n) err] reg')"
proof (intro conjI allI impI)
  show "\<exists>ws reg'. nodeAdd deps obj reg = Returned ws reg'"
  proof (cases obj)
    case (NodePtr p)
    then show ?thesis
      by (cases p) (auto simp: nodeAdd_def split: prod.splits option.splits)
  qed (simp_all add: nodeAdd_def)
next
  show "\<exists>ws reg'. nodeDelete deps obj reg = Returned ws reg'"
  proof (cases obj)
    case (NodePtr p)
    then show ?thesis
      by (cases p) (auto simp: nodeDelete_def split: prod.splits option.splits)
  qed (simp_all add: nodeDelete_def)
next
  assume "\<forall>n. obj \<noteq> NodePtr (Some n)"
  then show "nodeAdd deps obj reg = Returned [NodeAddUnrecognizedObject obj] reg"
    by (cases obj) (auto simp: nodeAdd_def split: option.splits)
next
  assume "\<forall>n. obj \<noteq> NodePtr (Some n)"
  then show "nodeDelete deps obj reg = Returned [NodeDeleteUnrecognizedObject obj] reg"
    by (cases obj) (auto simp: nodeDelete_def split: option.splits)
next
  fix n err reg'
  assume "obj = NodePtr (Some n) \<and>
      RegisterNode deps (GetUUIDFromProviderID deps (ProviderID (Spec n))) (Name n) reg =
        (Some err, reg')"
  then show "nodeAdd deps obj reg = Returned [FailedToRegisterNode (Name n) err] reg'"
    by (simp add: nodeAdd_def)
next
  fix n err reg'
  assume "obj = NodePtr (Some n) \<and> UnregisterNode deps (Name n) reg = (Some err, reg')"
  then show "nodeDelete deps obj reg = Returned [FailedToUnregisterNode (Name n) err] reg'"
    by (simp add: nodeDelete_def)
qed

theorem listener_callbacks_return_witness:
  "nodeAdd registry (NodePtr None) [''node1''] =
     Returned [NodeAddUnrecognizedObject (NodePtr None)] [''node1''] \<and>
   nodeDelete registry (OtherObject ''DeletedFinalStateUnknown'') [''node1''] =
     Returned [NodeDeleteUnrecognizedObject (OtherObject ''DeletedFinalStateUnknown'')]
       [''node1''] \<and>
   RegisterNode registry (GetUUIDFromProviderID registry (ProviderID (Spec badNode)))
       (Name badNode) [''node1''] = (Some ''ResolutionError'', [''node1'']) \<and>
   nodeAdd registry (NodePtr (Some badNode)) [''node1''] =
     Returned [FailedToRegisterNode (Name badNode) ''ResolutionError''] [''node1''] \<and>
   UnregisterNode registry (Name badNode) [''node1''] = (Some ''NotFoundError'', [''node1'']) \<and>
   nodeDelete registry (NodePtr (Some badNode)) [''node1''] =
     Returned [FailedToUnregisterNode (Name badNode) ''NotFoundError''] [''node1'']"
proof -
  note drop = listener_callbacks_return [THEN conjunct2, THEN conjunct2, THEN conjunct1, rule_format]
  note addFails = listener_callbacks_return [THEN conjunct2, THEN conjunct2, THEN conjunct2,
      THEN conjunct1, rule_format]
  note delFails = listener_callbacks_return [THEN conjunct2, THEN conjunct2, THEN conjunct2,
      THEN conjunct2, rule_format]
  have a: "nodeAdd registry (NodePtr None) [''node1''] =
     Returned [NodeAddUnrecognizedObject (NodePtr None)] [''node1'']"
    by (rule drop [THEN conjunct1]) simp
  have b: "nodeDelete registry (OtherObject ''DeletedFinalStateUnknown'') [''node1''] =
     Returned [NodeDeleteUnrecognizedObject (OtherObject ''DeletedFinalStateUnknown'')]
       [''node1'']"
    by (rule drop [THEN conjunct2]) simp
  have r: "RegisterNode registry (GetUUIDFromProviderID registry (ProviderID (Spec badNode)))
       (Name badNode) [''node1''] = (Some ''ResolutionError'', [''node1''])"
    by (simp add: registry_def badNode_def)
  have u: "UnregisterNode registry (Name badNode) [''node1''] =
       (Some ''NotFoundError'', [''node1''])"
    by (simp add: registry_def badNode_def)
  have c: "nodeAdd registry (NodePtr (Some badNode)) [''node1''] =
     Returned [FailedToRegisterNode (Name badNode) ''ResolutionError''] [''node1'']"
    by (rule addFails) (simp add: r)
  have d: "nodeDelete registry (NodePtr (Some badNode)) [''node1''] =
     Returned [FailedToUnregisterNode (Name badNode) ''NotFoundError''] [''node1'']"
    by (rule delFails) (simp add: u)
  from a b r c u d show ?thesis
    by blast
qed

end
